theory Spec2Isabelle
  imports Complex_Main "HOL-Library.Multiset" "HOL-Library.Char_ord" "HOL-Library.List_Lexorder"
begin

section \<open>Values of the scripts\<close>

text \<open>
  The two scripts of the repository are \<^verbatim>\<open>sql_data_analysis.py\<close>, which fills a SQLite
  store with synthetic data, runs four aggregate queries and saves four charts, and
  \<^verbatim>\<open>generate_visualizations.py\<close>, which saves four sample charts.

  Python integers are \<^typ>\<open>int\<close>. The REAL columns and Python floats that hold money are
  modelled as exact decimals (\<^typ>\<open>rat\<close>): prices have two decimals, quantities are small
  integers, and \<^verbatim>\<open>round(x, 2)\<close> is rounding to the nearest cent, half to even. The
  binary rounding error of IEEE doubles is outside this model. Texts are \<^typ>\<open>string\<close>.
\<close>

datatype error =
    ValueError
  | IndexError
  | IntegrityError
  | OperationalError
  | FileNotFoundError
  | NotADirectoryError
  | IsADirectoryError
  | FileExistsError
  | PermissionError

subsection \<open>The process-wide random source\<close>

text \<open>
  \<^verbatim>\<open>np.random.randint(low, high)\<close> draws from numpy's global generator, which
  \<^verbatim>\<open>sql_data_analysis.py\<close> never seeds: its state comes from the operating system when the
  process starts. The source is modelled as the sequence of its raw draws, \<open>g\<close>, and a
  position in that sequence. A draw is reduced into \<open>[low, high)\<close>; numpy raises
  \<^verbatim>\<open>ValueError\<close> when \<open>low >= high\<close>.
\<close>

type_synonym rng = "nat \<Rightarrow> nat"

definition randint :: "rng \<Rightarrow> nat \<Rightarrow> int \<Rightarrow> int \<Rightarrow> error + (int \<times> nat)" where
  "randint g pos low high =
     (if low < high then Inr (low + int (g pos mod nat (high - low)), Suc pos)
      else Inl ValueError)"

subsection \<open>Python list indexing\<close>

text \<open>\<^verbatim>\<open>xs[i]\<close>: an index below zero counts from the end; out of range raises.\<close>

definition py_index :: "'a list \<Rightarrow> int \<Rightarrow> error + 'a" where
  "py_index xs i =
     (if 0 \<le> i \<and> i < int (length xs) then Inr (xs ! nat i)
      else if i < 0 \<and> - int (length xs) \<le> i then Inr (xs ! nat (int (length xs) + i))
      else Inl IndexError)"

subsection \<open>Decimal formatting\<close>

definition digit_char :: "nat \<Rightarrow> char" where
  "digit_char d = ''0123456789'' ! d"

fun digits :: "nat \<Rightarrow> string" where
  "digits n = (if n < 10 then [digit_char n] else digits (n div 10) @ [digit_char (n mod 10)])"

declare digits.simps [simp del]

text \<open>\<^verbatim>\<open>"%0wd" % n\<close>: the decimal digits of \<open>n\<close>, padded with zeros on the left to width \<open>w\<close>.\<close>

definition zero_pad :: "nat \<Rightarrow> nat \<Rightarrow> string" where
  "zero_pad w n = replicate (w - length (digits n)) (CHR ''0'') @ digits n"

text \<open>\<^verbatim>\<open>f"{i}"\<close> for a Python integer.\<close>

definition str_int :: "int \<Rightarrow> string" where
  "str_int i = (if i < 0 then CHR ''-'' # digits (nat (- i)) else digits (nat i))"

subsection \<open>Calendar dates\<close>

record date =
  year :: nat
  month :: nat
  day :: nat

definition is_leap :: "nat \<Rightarrow> bool" where
  "is_leap y \<longleftrightarrow> y mod 4 = 0 \<and> (y mod 100 \<noteq> 0 \<or> y mod 400 = 0)"

definition days_in_month :: "nat \<Rightarrow> nat \<Rightarrow> nat" where
  "days_in_month y m =
     (if m = 2 then (if is_leap y then 29 else 28)
      else if m = 4 \<or> m = 6 \<or> m = 9 \<or> m = 11 then 30 else 31)"

text \<open>
  \<open>from_month_start y m n\<close> is the date \<open>n\<close> days after the first day of month \<open>m\<close> of
  year \<open>y\<close>: whole months are taken off \<open>n\<close> until the rest falls inside a month.
\<close>

function from_month_start :: "nat \<Rightarrow> nat \<Rightarrow> nat \<Rightarrow> date" where
  "from_month_start y m n =
     (if n < days_in_month y m then \<lparr>year = y, month = m, day = Suc n\<rparr>
      else if m = 12 then from_month_start (Suc y) 1 (n - days_in_month y m)
      else from_month_start y (Suc m) (n - days_in_month y m))"
  by pat_completeness auto
termination
proof (relation "measure (\<lambda>(y, m, n). n)")
  show "wf (measure (\<lambda>(y, m, n). n))" by simp
next
  fix y m n :: nat
  assume "\<not> n < days_in_month y m"
  moreover have "0 < days_in_month y m" by (simp add: days_in_month_def)
  ultimately show "((Suc y, 1, n - days_in_month y m), (y, m, n)) \<in> measure (\<lambda>(y, m, n). n)"
    by simp
next
  fix y m n :: nat
  assume "\<not> n < days_in_month y m"
  moreover have "0 < days_in_month y m" by (simp add: days_in_month_def)
  ultimately show "((y, Suc m, n - days_in_month y m), (y, m, n)) \<in> measure (\<lambda>(y, m, n). n)"
    by simp
qed

declare from_month_start.simps [simp del]

text \<open>\<^verbatim>\<open>d + datetime.timedelta(days=k)\<close> for \<open>k \<ge> 0\<close>.\<close>

definition date_add_days :: "date \<Rightarrow> nat \<Rightarrow> date" where
  "date_add_days d k = from_month_start (year d) (month d) (day d - 1 + k)"

text \<open>\<^verbatim>\<open>d.isoformat()\<close>: \<^verbatim>\<open>"%04d-%02d-%02d"\<close>.\<close>

definition isoformat :: "date \<Rightarrow> string" where
  "isoformat d = zero_pad 4 (year d) @ ''-'' @ zero_pad 2 (month d) @ ''-'' @ zero_pad 2 (day d)"

text \<open>\<^verbatim>\<open>(datetime.date(2021,1,1) + datetime.timedelta(days=k)).isoformat()\<close>\<close>

definition random_date :: "int \<Rightarrow> string" where
  "random_date k = isoformat (date_add_days \<lparr>year = 2021, month = 1, day = 1\<rparr> (nat k))"

subsection \<open>Rounding to cents\<close>

text \<open>\<^verbatim>\<open>round(x, 2)\<close>: to the nearest multiple of 0.01, a tie going to the even one.\<close>

definition round2 :: "rat \<Rightarrow> rat" where
  "round2 x =
     (let y = x * 100; f = \<lfloor>y\<rfloor>; r = y - of_int f
      in of_int (if r < 1 / 2 then f
                 else if 1 / 2 < r then f + 1
                 else if even f then f else f + 1) / 100)"

section \<open>The tables\<close>

text \<open>
  The rows that the generator builds are Python tuples, in column order:
  \<^item> Customers: (customer_id, name, email, registration_date);
  \<^item> Products: (product_id, name, category, price);
  \<^item> Orders: (order_id, customer_id, order_date, total_amount);
  \<^item> order items as generated: (order_id, product_id, quantity, unit_price).
\<close>

type_synonym customer = "int \<times> string \<times> string \<times> string"
type_synonym product = "int \<times> string \<times> string \<times> rat"
type_synonym order = "int \<times> int \<times> string \<times> rat"
type_synonym order_item = "int \<times> int \<times> int \<times> rat"

definition customer_id :: "customer \<Rightarrow> int" where "customer_id c = fst c"
definition customer_name :: "customer \<Rightarrow> string" where "customer_name c = fst (snd c)"

definition product_id :: "product \<Rightarrow> int" where "product_id p = fst p"
definition product_name :: "product \<Rightarrow> string" where "product_name p = fst (snd p)"
definition product_category :: "product \<Rightarrow> string" where "product_category p = fst (snd (snd p))"
definition price :: "product \<Rightarrow> rat" where "price p = snd (snd (snd p))"

definition order_id :: "order \<Rightarrow> int" where "order_id o' = fst o'"
definition order_customer_id :: "order \<Rightarrow> int" where "order_customer_id o' = fst (snd o')"
definition order_date :: "order \<Rightarrow> string" where "order_date o' = fst (snd (snd o'))"
definition total_amount :: "order \<Rightarrow> rat" where "total_amount o' = snd (snd (snd o'))"

definition item_order_id :: "order_item \<Rightarrow> int" where "item_order_id it = fst it"
definition item_product_id :: "order_item \<Rightarrow> int" where "item_product_id it = fst (snd it)"
definition quantity :: "order_item \<Rightarrow> int" where "quantity it = fst (snd (snd it))"
definition unit_price :: "order_item \<Rightarrow> rat" where "unit_price it = snd (snd (snd it))"

section \<open>The synthetic data generator\<close>

subsection \<open>Customers\<close>

text \<open>
  \<^verbatim>\<open>for i in range(1, num_customers+1)\<close>: one draw per customer, for the registration
  date; the row is appended to \<^verbatim>\<open>customers\<close>.
\<close>

fun gen_customers :: "rng \<Rightarrow> int list \<Rightarrow> nat \<Rightarrow> customer list \<Rightarrow> error + (customer list \<times> nat)" where
  "gen_customers g [] pos customers = Inr (customers, pos)"
| "gen_customers g (i # is) pos customers =
     (case randint g pos 0 730 of
        Inl e \<Rightarrow> Inl e
      | Inr (k, pos') \<Rightarrow>
          gen_customers g is pos'
            (customers @ [(i, ''Customer '' @ str_int i,
                           ''customer'' @ str_int i @ ''@example.com'', random_date k)]))"

subsection \<open>Products\<close>

definition products :: "product list" where
  "products =
     [(1, ''Smartphone'', ''Electronics'', 69999 / 100),
      (2, ''Laptop'', ''Electronics'', 119999 / 100),
      (3, ''Tablet'', ''Electronics'', 49999 / 100),
      (4, ''Headphones'', ''Electronics'', 19999 / 100),
      (5, ''Jeans'', ''Fashion'', 4999 / 100),
      (6, ''T-Shirt'', ''Fashion'', 1999 / 100),
      (7, ''Sneakers'', ''Fashion'', 8999 / 100),
      (8, ''Coffee Maker'', ''Home & Kitchen'', 7999 / 100),
      (9, ''Blender'', ''Home & Kitchen'', 5999 / 100),
      (10, ''Book'', ''Books'', 1499 / 100)]"

subsection \<open>Orders and order items\<close>

text \<open>
  The inner loop \<^verbatim>\<open>for j in range(num_items)\<close>: two draws per line item (the product,
  then the quantity); \<^verbatim>\<open>total_amount\<close> and \<^verbatim>\<open>items\<close> are the loop's accumulators.
\<close>

fun gen_items ::
  "rng \<Rightarrow> int \<Rightarrow> nat \<Rightarrow> nat \<Rightarrow> rat \<Rightarrow> order_item list \<Rightarrow> error + (rat \<times> order_item list \<times> nat)" where
  "gen_items g oid 0 pos tot items = Inr (tot, items, pos)"
| "gen_items g oid (Suc n) pos tot items =
     (case randint g pos 0 (int (length products)) of
        Inl e \<Rightarrow> Inl e
      | Inr (idx, pos1) \<Rightarrow>
          (case py_index products idx of
             Inl e \<Rightarrow> Inl e
           | Inr p \<Rightarrow>
               (case randint g pos1 1 4 of
                  Inl e \<Rightarrow> Inl e
                | Inr (q, pos2) \<Rightarrow>
                    gen_items g oid n pos2 (tot + price p * of_int q)
                      (items @ [(oid, product_id p, q, price p)]))))"

text \<open>
  The outer loop \<^verbatim>\<open>for i in range(num_orders)\<close>: three draws (customer, date, number of
  items), then the inner loop; \<^verbatim>\<open>order_id\<close> counts up from its value at entry.
\<close>

fun gen_orders ::
  "rng \<Rightarrow> int \<Rightarrow> nat \<Rightarrow> int \<Rightarrow> nat \<Rightarrow> order list \<Rightarrow> order_item list
     \<Rightarrow> error + (order list \<times> order_item list \<times> nat)" where
  "gen_orders g num_customers 0 oid pos orders order_items = Inr (orders, order_items, pos)"
| "gen_orders g num_customers (Suc n) oid pos orders order_items =
     (case randint g pos 1 (num_customers + 1) of
        Inl e \<Rightarrow> Inl e
      | Inr (cid, pos1) \<Rightarrow>
          (case randint g pos1 0 730 of
             Inl e \<Rightarrow> Inl e
           | Inr (k, pos2) \<Rightarrow>
               (case randint g pos2 1 6 of
                  Inl e \<Rightarrow> Inl e
                | Inr (num_items, pos3) \<Rightarrow>
                    (case gen_items g oid (nat num_items) pos3 0 [] of
                       Inl e \<Rightarrow> Inl e
                     | Inr (tot, items, pos4) \<Rightarrow>
                         gen_orders g num_customers n (oid + 1) pos4
                           (orders @ [(oid, cid, random_date k, round2 tot)])
                           (order_items @ items)))))"

text \<open>
  The generated dataset: the three loops of the script in their order, on one random
  source. \<^verbatim>\<open>num_customers\<close> and \<^verbatim>\<open>num_orders\<close> are 200 and 1000 in the script.
\<close>

record dataset =
  customers :: "customer list"
  orders :: "order list"
  order_items :: "order_item list"

definition generate :: "rng \<Rightarrow> int \<Rightarrow> int \<Rightarrow> error + dataset" where
  "generate g num_customers num_orders =
     (case gen_customers g [1..num_customers] 0 [] of
        Inl e \<Rightarrow> Inl e
      | Inr (cs, pos) \<Rightarrow>
          (case gen_orders g num_customers (nat num_orders) 1 pos [] [] of
             Inl e \<Rightarrow> Inl e
           | Inr (os, ois, pos') \<Rightarrow> Inr \<lparr>customers = cs, orders = os, order_items = ois\<rparr>))"


section \<open>The store\<close>

text \<open>
  The SQLite file holds the four tables. A table that does not exist is \<open>None\<close>. A row of
  OrderItems is (order_item_id, order_id, product_id, quantity, unit_price): the store
  gives it its \<^verbatim>\<open>AUTOINCREMENT\<close> key. SQLite does not enforce the \<^verbatim>\<open>FOREIGN KEY\<close> clauses
  unless asked to, and the script does not ask; the primary keys are enforced.
\<close>

type_synonym order_item_row = "int \<times> order_item"

record store =
  Customers :: "customer list option"
  Products :: "product list option"
  Orders :: "order list option"
  OrderItems :: "order_item_row list option"

text \<open>An exception of a step ends the script: the steps are chained with \<open>and_then\<close>.\<close>

definition and_then :: "error + 'a \<Rightarrow> ('a \<Rightarrow> error + 'b) \<Rightarrow> error + 'b" where
  "and_then m f = (case m of Inl e \<Rightarrow> Inl e | Inr x \<Rightarrow> f x)"

definition tables :: "string list" where
  "tables = [''OrderItems'', ''Orders'', ''Products'', ''Customers'']"

text \<open>\<^verbatim>\<open>DROP TABLE IF EXISTS t\<close>\<close>

definition drop_table_if_exists :: "string \<Rightarrow> store \<Rightarrow> store" where
  "drop_table_if_exists t s =
     (if t = ''Customers'' then s\<lparr>Customers := None\<rparr>
      else if t = ''Products'' then s\<lparr>Products := None\<rparr>
      else if t = ''Orders'' then s\<lparr>Orders := None\<rparr>
      else if t = ''OrderItems'' then s\<lparr>OrderItems := None\<rparr>
      else s)"

text \<open>\<^verbatim>\<open>CREATE TABLE t (...)\<close> fails when the table exists.\<close>

definition create_Customers :: "store \<Rightarrow> error + store" where
  "create_Customers s =
     (case Customers s of None \<Rightarrow> Inr (s\<lparr>Customers := Some []\<rparr>) | Some _ \<Rightarrow> Inl OperationalError)"

definition create_Products :: "store \<Rightarrow> error + store" where
  "create_Products s =
     (case Products s of None \<Rightarrow> Inr (s\<lparr>Products := Some []\<rparr>) | Some _ \<Rightarrow> Inl OperationalError)"

definition create_Orders :: "store \<Rightarrow> error + store" where
  "create_Orders s =
     (case Orders s of None \<Rightarrow> Inr (s\<lparr>Orders := Some []\<rparr>) | Some _ \<Rightarrow> Inl OperationalError)"

definition create_OrderItems :: "store \<Rightarrow> error + store" where
  "create_OrderItems s =
     (case OrderItems s of None \<Rightarrow> Inr (s\<lparr>OrderItems := Some []\<rparr>) | Some _ \<Rightarrow> Inl OperationalError)"

text \<open>
  \<^verbatim>\<open>executemany("INSERT INTO t ...", rows)\<close> on a table with an \<^verbatim>\<open>INTEGER PRIMARY KEY\<close>
  given by the row: the rows go in one by one, and a key that is already there raises
  \<^verbatim>\<open>IntegrityError\<close>.
\<close>

fun insert_rows :: "('r \<Rightarrow> int) \<Rightarrow> 'r list \<Rightarrow> 'r list \<Rightarrow> error + 'r list" where
  "insert_rows key [] tbl = Inr tbl"
| "insert_rows key (r # rs) tbl =
     (if key r \<in> set (map key tbl) then Inl IntegrityError
      else insert_rows key rs (tbl @ [r]))"

definition insert_Customers :: "customer list \<Rightarrow> store \<Rightarrow> error + store" where
  "insert_Customers rows s =
     (case Customers s of
        None \<Rightarrow> Inl OperationalError
      | Some tbl \<Rightarrow>
          and_then (insert_rows customer_id rows tbl) (\<lambda>tbl'. Inr (s\<lparr>Customers := Some tbl'\<rparr>)))"

definition insert_Products :: "product list \<Rightarrow> store \<Rightarrow> error + store" where
  "insert_Products rows s =
     (case Products s of
        None \<Rightarrow> Inl OperationalError
      | Some tbl \<Rightarrow>
          and_then (insert_rows product_id rows tbl) (\<lambda>tbl'. Inr (s\<lparr>Products := Some tbl'\<rparr>)))"

definition insert_Orders :: "order list \<Rightarrow> store \<Rightarrow> error + store" where
  "insert_Orders rows s =
     (case Orders s of
        None \<Rightarrow> Inl OperationalError
      | Some tbl \<Rightarrow>
          and_then (insert_rows order_id rows tbl) (\<lambda>tbl'. Inr (s\<lparr>Orders := Some tbl'\<rparr>)))"

text \<open>The next \<^verbatim>\<open>AUTOINCREMENT\<close> key is one more than the largest key of the table.\<close>

definition next_rowid :: "order_item_row list \<Rightarrow> int" where
  "next_rowid tbl = foldr max (map fst tbl) 0 + 1"

fun autoincrement_rows :: "order_item list \<Rightarrow> order_item_row list \<Rightarrow> order_item_row list" where
  "autoincrement_rows [] tbl = tbl"
| "autoincrement_rows (it # its) tbl = autoincrement_rows its (tbl @ [(next_rowid tbl, it)])"

definition insert_OrderItems :: "order_item list \<Rightarrow> store \<Rightarrow> error + store" where
  "insert_OrderItems rows s =
     (case OrderItems s of
        None \<Rightarrow> Inl OperationalError
      | Some tbl \<Rightarrow> Inr (s\<lparr>OrderItems := Some (autoincrement_rows rows tbl)\<rparr>))"

section \<open>The file system\<close>

text \<open>
  What the scripts see of the file system: the directories and the files that exist, and
  the paths at which the system refuses to create or write (\<open>denied\<close>: a read-only
  directory, a missing permission). The bytes of an image are not modelled.
\<close>

record filesystem =
  dirs :: "string set"
  files :: "string set"
  denied :: "string set"

definition path_exists :: "filesystem \<Rightarrow> string \<Rightarrow> bool" where
  "path_exists f p \<longleftrightarrow> p \<in> dirs f \<or> p \<in> files f"

definition makedirs :: "string \<Rightarrow> filesystem \<Rightarrow> error + filesystem" where
  "makedirs p f =
     (if path_exists f p then Inl FileExistsError
      else if p \<in> denied f then Inl PermissionError
      else Inr (f\<lparr>dirs := insert p (dirs f)\<rparr>))"

definition path_join :: "string \<Rightarrow> string \<Rightarrow> string" where
  "path_join d n = d @ ''/'' @ n"

text \<open>
  \<^verbatim>\<open>plt.savefig(path)\<close> opens \<open>path\<close> for writing: the directory of the path must exist,
  and matplotlib does not create it.
\<close>

definition savefig :: "string \<Rightarrow> string \<Rightarrow> filesystem \<Rightarrow> error + filesystem" where
  "savefig d n f =
     (if d \<in> dirs f then
        (if path_join d n \<in> dirs f then Inl IsADirectoryError
         else if path_join d n \<in> denied f then Inl PermissionError
         else Inr (f\<lparr>files := insert (path_join d n) (files f)\<rparr>))
      else if d \<in> files f then Inl NotADirectoryError
      else Inl FileNotFoundError)"

section \<open>The script sql\_data\_analysis.py\<close>

record world =
  fs :: filesystem
  db :: store

definition OUTPUT_DIR :: string where
  "OUTPUT_DIR = ''sql_analysis_images''"

definition num_customers :: int where
  "num_customers = 200"

definition num_orders :: int where
  "num_orders = 1000"

text \<open>\<^verbatim>\<open>if not os.path.exists(OUTPUT_DIR): os.makedirs(OUTPUT_DIR)\<close>\<close>

definition setup_output_dir :: "filesystem \<Rightarrow> error + filesystem" where
  "setup_output_dir f = (if path_exists f OUTPUT_DIR then Inr f else makedirs OUTPUT_DIR f)"

text \<open>The loop over \<^verbatim>\<open>tables\<close> that drops them, then the four \<^verbatim>\<open>CREATE TABLE\<close>.\<close>

definition reset_store :: "store \<Rightarrow> error + store" where
  "reset_store s =
     and_then (create_Customers (fold drop_table_if_exists tables s)) (\<lambda>s1.
     and_then (create_Products s1) (\<lambda>s2.
     and_then (create_Orders s2) create_OrderItems))"

text \<open>The generation loops and the four inserts, in the order of the script.\<close>

definition populate :: "rng \<Rightarrow> int \<Rightarrow> int \<Rightarrow> store \<Rightarrow> error + store" where
  "populate g nc no s =
     and_then (gen_customers g [1..nc] 0 []) (\<lambda>(cs, pos).
     and_then (insert_Customers cs s) (\<lambda>s1.
     and_then (insert_Products products s1) (\<lambda>s2.
     and_then (gen_orders g nc (nat no) 1 pos [] []) (\<lambda>(os, ois, pos').
     and_then (insert_Orders os s2) (insert_OrderItems ois)))))"

text \<open>The four \<^verbatim>\<open>plt.savefig(os.path.join(OUTPUT_DIR, ...))\<close>, in the order of the script.\<close>

definition save_charts :: "filesystem \<Rightarrow> error + filesystem" where
  "save_charts f =
     and_then (savefig OUTPUT_DIR ''monthly_sales_trend.png'' f) (\<lambda>f1.
     and_then (savefig OUTPUT_DIR ''best_selling_products.png'' f1) (\<lambda>f2.
     and_then (savefig OUTPUT_DIR ''top_customers_spending.png'' f2)
       (savefig OUTPUT_DIR ''customer_segmentation.png'')))"

text \<open>
  The whole script, for \<open>nc\<close> customers and \<open>no\<close> orders. The four queries run between
  \<open>populate\<close> and \<open>save_charts\<close>; they read the store and leave it as it is.
\<close>

definition run_analysis :: "rng \<Rightarrow> int \<Rightarrow> int \<Rightarrow> world \<Rightarrow> error + world" where
  "run_analysis g nc no w =
     and_then (setup_output_dir (fs w)) (\<lambda>f1.
     and_then (reset_store (db w)) (\<lambda>s1.
     and_then (populate g nc no s1) (\<lambda>s2.
     and_then (save_charts f1) (\<lambda>f2. Inr \<lparr>fs = f2, db = s2\<rparr>))))"

definition sql_data_analysis :: "rng \<Rightarrow> world \<Rightarrow> error + world" where
  "sql_data_analysis g w = run_analysis g num_customers num_orders w"

section \<open>The script generate\_visualizations.py\<close>

text \<open>
  Each of the four functions draws sample data, plots it and saves the figure under
  \<^verbatim>\<open>images/\<close>. Only the file written is modelled.
\<close>

definition create_monthly_sales_trend :: "filesystem \<Rightarrow> error + filesystem" where
  "create_monthly_sales_trend f = savefig ''images'' ''monthly_sales_trend.png'' f"

definition create_customer_segmentation :: "filesystem \<Rightarrow> error + filesystem" where
  "create_customer_segmentation f = savefig ''images'' ''customer_segmentation.png'' f"

definition create_best_selling_products :: "filesystem \<Rightarrow> error + filesystem" where
  "create_best_selling_products f = savefig ''images'' ''best_selling_products.png'' f"

definition create_top_customer_spending :: "filesystem \<Rightarrow> error + filesystem" where
  "create_top_customer_spending f = savefig ''images'' ''top_customers_spending.png'' f"

definition generate_visualizations :: "filesystem \<Rightarrow> error + filesystem" where
  "generate_visualizations f =
     and_then (create_monthly_sales_trend f) (\<lambda>f1.
     and_then (create_customer_segmentation f1) (\<lambda>f2.
     and_then (create_best_selling_products f2) create_top_customer_spending))"


section \<open>The four queries\<close>

text \<open>
  The queries are SQL texts that SQLite evaluates. Their relational meaning is spelled out
  here: an inner join keeps the pairs of rows that satisfy the join condition,
  \<^verbatim>\<open>GROUP BY\<close> makes one group per distinct key, and \<^verbatim>\<open>ORDER BY\<close> returns the rows sorted
  by the given key. SQL fixes no order among rows that have the same key, so a query with
  \<^verbatim>\<open>ORDER BY\<close> is a relation between the tables and the results it may return.
\<close>

definition sql_join :: "'a list \<Rightarrow> 'b list \<Rightarrow> ('a \<Rightarrow> 'b \<Rightarrow> bool) \<Rightarrow> ('a \<times> 'b) list" where
  "sql_join xs ys cond = concat (map (\<lambda>x. map (Pair x) (filter (cond x) ys)) xs)"

definition sql_group_by :: "('r \<Rightarrow> 'k) \<Rightarrow> 'r list \<Rightarrow> ('k \<times> 'r list) list" where
  "sql_group_by key rows =
     map (\<lambda>k. (k, filter (\<lambda>r. key r = k) rows)) (remdups (map key rows))"

text \<open>\<open>before a b\<close>: the sort key allows row \<open>a\<close> to stand before row \<open>b\<close>.\<close>

definition sql_order_by :: "('r \<Rightarrow> 'r \<Rightarrow> bool) \<Rightarrow> 'r list \<Rightarrow> 'r list \<Rightarrow> bool" where
  "sql_order_by before rows out \<longleftrightarrow> mset out = mset rows \<and> sorted_wrt before out"

subsection \<open>Query 1: top 10 customers by total spending\<close>

type_synonym spending_row = "int \<times> string \<times> rat"

definition total_spent :: "spending_row \<Rightarrow> rat" where
  "total_spent r = snd (snd r)"

definition CustomerSpending :: "customer list \<Rightarrow> order list \<Rightarrow> spending_row list" where
  "CustomerSpending cs os =
     map (\<lambda>(k, grp). (fst k, snd k, sum_list (map (\<lambda>(c, o'). total_amount o') grp)))
       (sql_group_by (\<lambda>(c, o'). (customer_id c, customer_name c))
          (sql_join cs os (\<lambda>c o'. customer_id c = order_customer_id o')))"

definition query_top_customers :: "customer list \<Rightarrow> order list \<Rightarrow> spending_row list \<Rightarrow> bool" where
  "query_top_customers cs os res \<longleftrightarrow>
     (\<exists>s. sql_order_by (\<lambda>a b. total_spent b \<le> total_spent a) (CustomerSpending cs os) s
          \<and> res = take 10 s)"

text \<open>Rows with equal totals stand in ascending order of customer\_id.\<close>

definition ties_by_customer_id :: "spending_row list \<Rightarrow> bool" where
  "ties_by_customer_id res \<longleftrightarrow>
     sorted_wrt (\<lambda>a b. total_spent a = total_spent b \<longrightarrow> fst a < fst b) res"

subsection \<open>Query 2: monthly sales trend\<close>

text \<open>
  \<^verbatim>\<open>strftime('%Y-%m', order_date)\<close> on a date text \<^verbatim>\<open>YYYY-MM-DD\<close> of a calendar date, as
  \<open>isoformat\<close> writes it, is the text \<^verbatim>\<open>YYYY-MM\<close>: its first seven characters. The month
  texts are compared as SQLite compares texts, character by character.
\<close>

definition strftime_Ym :: "string \<Rightarrow> string" where
  "strftime_Ym t = take 7 t"

type_synonym monthly_row = "string \<times> rat"

definition MonthlySales :: "order list \<Rightarrow> monthly_row list" where
  "MonthlySales os =
     map (\<lambda>(m, grp). (m, sum_list (map total_amount grp)))
       (sql_group_by (\<lambda>o'. strftime_Ym (order_date o')) os)"

definition query_monthly_sales :: "order list \<Rightarrow> monthly_row list \<Rightarrow> bool" where
  "query_monthly_sales os res \<longleftrightarrow> sql_order_by (\<lambda>a b. fst a \<le> fst b) (MonthlySales os) res"

text \<open>
  Reading a month text back: \<open>month_ordinal\<close> of \<^verbatim>\<open>YYYY-MM\<close> is 12 * YYYY + MM, the
  number of the month in the calendar.
\<close>

definition digit_value :: "char \<Rightarrow> nat" where
  "digit_value c = of_char c - 48"

definition nat_of_digits :: "string \<Rightarrow> nat" where
  "nat_of_digits s = foldl (\<lambda>n c. 10 * n + digit_value c) 0 s"

definition month_ordinal :: "string \<Rightarrow> nat" where
  "month_ordinal s = 12 * nat_of_digits (take 4 s) + nat_of_digits (take 2 (drop 5 s))"

subsection \<open>Query 3: best-selling products by quantity\<close>

text \<open>The query reads product\_id and quantity of the order items, not their key.\<close>

type_synonym product_row = "string \<times> string \<times> int"

definition total_quantity :: "product_row \<Rightarrow> int" where
  "total_quantity r = snd (snd r)"

definition ProductQuantities :: "product list \<Rightarrow> order_item list \<Rightarrow> product_row list" where
  "ProductQuantities ps items =
     map (\<lambda>(k, grp). (fst k, snd k, sum_list (map (\<lambda>(it, p). quantity it) grp)))
       (sql_group_by (\<lambda>(it, p). (product_name p, product_category p))
          (sql_join items ps (\<lambda>it p. item_product_id it = product_id p)))"

definition query_best_products :: "product list \<Rightarrow> order_item list \<Rightarrow> product_row list \<Rightarrow> bool" where
  "query_best_products ps items res \<longleftrightarrow>
     (\<exists>s. sql_order_by (\<lambda>a b. total_quantity b \<le> total_quantity a) (ProductQuantities ps items) s
          \<and> res = take 10 s)"

subsection \<open>Query 4: customer segmentation by average order value\<close>

type_synonym average_row = "int \<times> string \<times> rat"

definition avg_order_value :: "average_row \<Rightarrow> rat" where
  "avg_order_value r = snd (snd r)"

definition CustomerOrders :: "customer list \<Rightarrow> order list \<Rightarrow> average_row list" where
  "CustomerOrders cs os =
     map (\<lambda>(k, grp). (fst k, snd k,
                       sum_list (map (\<lambda>(c, o'). total_amount o') grp) / of_nat (length grp)))
       (sql_group_by (\<lambda>(c, o'). (customer_id c, customer_name c))
          (sql_join cs os (\<lambda>c o'. customer_id c = order_customer_id o')))"

text \<open>
  \<^verbatim>\<open>RANK() OVER (ORDER BY key DESC)\<close>: one more than the number of rows that stand before
  the row in the window order and are not its peers, that is, rows with a greater key.
\<close>

definition sql_rank_desc :: "('r \<Rightarrow> rat) \<Rightarrow> 'r list \<Rightarrow> 'r \<Rightarrow> int" where
  "sql_rank_desc key rows r = 1 + int (length (filter (\<lambda>x. key r < key x) rows))"

type_synonym segmentation_row = "average_row \<times> int"

definition spending_rank :: "segmentation_row \<Rightarrow> int" where
  "spending_rank r = snd r"

definition RankedCustomers :: "customer list \<Rightarrow> order list \<Rightarrow> segmentation_row list" where
  "RankedCustomers cs os =
     map (\<lambda>r. (r, sql_rank_desc avg_order_value (CustomerOrders cs os) r)) (CustomerOrders cs os)"

definition query_customer_segmentation ::
  "customer list \<Rightarrow> order list \<Rightarrow> segmentation_row list \<Rightarrow> bool" where
  "query_customer_segmentation cs os res \<longleftrightarrow>
     (\<exists>s. sql_order_by (\<lambda>a b. spending_rank a \<le> spending_rank b) (RankedCustomers cs os) s
          \<and> res = take 10 s)"

section \<open>Properties of the generated rows\<close>

text \<open>The amount of a line item, \<^verbatim>\<open>price * quantity\<close>, and the line items of an order.\<close>

definition line_total :: "order_item \<Rightarrow> rat" where
  "line_total it = unit_price it * of_int (quantity it)"

definition items_of :: "order_item list \<Rightarrow> int \<Rightarrow> order_item list" where
  "items_of items oid = filter (\<lambda>it. item_order_id it = oid) items"

definition from_catalog :: "order_item \<Rightarrow> bool" where
  "from_catalog it \<longleftrightarrow>
     (\<exists>p \<in> set products. item_product_id it = product_id p \<and> unit_price it = price p)"

definition item_ok :: "order_item \<Rightarrow> bool" where
  "item_ok it \<longleftrightarrow> 1 \<le> quantity it \<and> quantity it \<le> 3 \<and> from_catalog it"

definition in_window :: "string \<Rightarrow> bool" where
  "in_window t \<longleftrightarrow> (\<exists>k \<in> {0 ..< 730}. t = random_date k)"

definition order_ok :: "int \<Rightarrow> order_item list \<Rightarrow> order \<Rightarrow> bool" where
  "order_ok nc items o' \<longleftrightarrow>
     1 \<le> order_customer_id o' \<and> order_customer_id o' \<le> nc
     \<and> in_window (order_date o')
     \<and> total_amount o' = round2 (sum_list (map line_total (items_of items (order_id o'))))
     \<and> 1 \<le> length (items_of items (order_id o'))
     \<and> length (items_of items (order_id o')) \<le> 5"

text \<open>Two random sources that yield the same first \<open>n\<close> draws.\<close>

definition same_draws :: "rng \<Rightarrow> rng \<Rightarrow> nat \<Rightarrow> bool" where
  "same_draws g g' n \<longleftrightarrow> map g [0 ..< n] = map g' [0 ..< n]"

section \<open>Sample inputs\<close>

definition sample_draws :: rng where
  "sample_draws = (\<lambda>i. i)"

definition zero_draws :: rng where
  "zero_draws = (\<lambda>i. 0)"

definition sample_dataset :: dataset where
  "sample_dataset =
     \<lparr>customers = [(1, ''Customer 1'', ''customer1@example.com'', ''2021-01-01'')],
      orders = [(1, 1, ''2021-01-03'', 248991 / 100)],
      order_items = [(1, 5, 3, 4999 / 100), (1, 7, 2, 8999 / 100),
                     (1, 9, 1, 5999 / 100), (1, 1, 3, 69999 / 100)]\<rparr>"

section \<open>What a full run leaves behind\<close>

text \<open>The store right after the reset: the four tables exist and are empty.\<close>

definition empty_store :: store where
  "empty_store = \<lparr>Customers = Some [], Products = Some [], Orders = Some [], OrderItems = Some []\<rparr>"

text \<open>The four image files of \<^verbatim>\<open>sql_data_analysis.py\<close>.\<close>

definition chart_files :: "string set" where
  "chart_files =
     {path_join OUTPUT_DIR ''monthly_sales_trend.png'',
      path_join OUTPUT_DIR ''best_selling_products.png'',
      path_join OUTPUT_DIR ''top_customers_spending.png'',
      path_join OUTPUT_DIR ''customer_segmentation.png''}"

text \<open>
  The file system lets the script have its output directory: no regular file has the
  directory's name, the directory exists or may be created, and the four image paths
  may be written.
\<close>

definition output_usable :: "filesystem \<Rightarrow> bool" where
  "output_usable f \<longleftrightarrow>
     OUTPUT_DIR \<notin> files f
     \<and> (OUTPUT_DIR \<in> dirs f \<or> OUTPUT_DIR \<notin> denied f)
     \<and> (\<forall>p \<in> chart_files. p \<notin> dirs f \<and> p \<notin> denied f)"

definition bare_filesystem :: filesystem where
  "bare_filesystem = \<lparr>dirs = {}, files = {}, denied = {}\<rparr>"

definition stale_store :: store where
  "stale_store =
     \<lparr>Customers = Some [(7, ''Customer 7'', ''customer7@example.com'', ''2021-05-05'')],
      Products = None, Orders = Some [], OrderItems = None\<rparr>"

definition sample_world :: world where
  "sample_world = \<lparr>fs = bare_filesystem\<lparr>files := {''notes.txt''}\<rparr>, db = stale_store\<rparr>"

definition sample_store :: store where
  "sample_store =
     \<lparr>Customers = Some (customers sample_dataset), Products = Some products,
      Orders = Some (orders sample_dataset),
      OrderItems = Some [(1, 1, 5, 3, 4999 / 100), (2, 1, 7, 2, 8999 / 100),
                         (3, 1, 9, 1, 5999 / 100), (4, 1, 1, 3, 69999 / 100)]\<rparr>"

section \<open>Evaluation on concrete inputs\<close>

lemmas text_eval = random_date_def date_add_days_def from_month_start.simps days_in_month_def
  is_leap_def isoformat_def zero_pad_def digits.simps digit_char_def str_int_def

lemmas row_eval = customer_id_def customer_name_def product_id_def product_name_def
  product_category_def price_def order_id_def order_customer_id_def order_date_def
  total_amount_def item_order_id_def item_product_id_def quantity_def unit_price_def

lemmas gen_items_numeral =
  gen_items.simps(2) [where n = "pred_numeral v", folded numeral_eq_Suc] for v

lemmas gen_orders_numeral =
  gen_orders.simps(2) [where n = "pred_numeral v", folded numeral_eq_Suc] for v

lemma sample_texts:
  "random_date 0 = ''2021-01-01''" "random_date 2 = ''2021-01-03''" "str_int 1 = ''1''"
  by (simp_all add: text_eval)

lemma generate_sample: "generate sample_draws 1 1 = Inr sample_dataset"
  by (simp add: generate_def sample_dataset_def sample_draws_def randint_def py_index_def
        products_def round2_def row_eval sample_texts gen_items_numeral)

section \<open>The generation loops\<close>

lemma randint_ok:
  assumes "low < high"
  shows "\<exists>v. randint g pos low high = Inr (v, Suc pos) \<and> low \<le> v \<and> v < high"
proof -
  have "g pos mod nat (high - low) < nat (high - low)"
    using assms by simp
  then have "int (g pos mod nat (high - low)) < high - low"
    by linarith
  then show ?thesis using assms by (simp add: randint_def)
qed

lemma length_products: "length products = 10"
  by (simp add: products_def)

lemma py_index_products:
  "0 \<le> i \<Longrightarrow> i < 10 \<Longrightarrow> \<exists>p. py_index products i = Inr p \<and> p \<in> set products"
  by (simp add: py_index_def length_products)

lemma gen_customers_spec:
  "\<exists>new. gen_customers g is pos acc = Inr (acc @ new, pos + length is) \<and> map customer_id new = is"
proof (induction "is" arbitrary: pos acc)
  case Nil
  show ?case by simp
next
  case (Cons i "is")
  obtain k where k: "randint g pos 0 730 = Inr (k, Suc pos)"
    using randint_ok [of 0 730 g pos] by auto
  let ?c = "(i, ''Customer '' @ str_int i, ''customer'' @ str_int i @ ''@example.com'', random_date k)"
  from Cons.IH [of "Suc pos" "acc @ [?c]"] obtain new where
    new: "gen_customers g is (Suc pos) (acc @ [?c]) = Inr ((acc @ [?c]) @ new, Suc pos + length is)"
      "map customer_id new = is" by blast
  have "gen_customers g (i # is) pos acc = Inr (acc @ (?c # new), pos + length (i # is))"
    using k new(1) by simp
  moreover have "map customer_id (?c # new) = i # is"
    using new(2) by (simp add: customer_id_def)
  ultimately show ?case by (intro exI [of _ "?c # new"] conjI)
qed

lemma gen_items_spec:
  "\<exists>new. gen_items g oid n pos tot items =
            Inr (tot + sum_list (map line_total new), items @ new, pos + 2 * n)
         \<and> length new = n
         \<and> (\<forall>it \<in> set new. item_order_id it = oid \<and> item_ok it)"
proof (induction n arbitrary: pos tot items)
  case 0
  show ?case by simp
next
  case (Suc n)
  obtain idx where idx: "randint g pos 0 (int (length products)) = Inr (idx, Suc pos)"
      "0 \<le> idx" "idx < 10"
    using randint_ok [of 0 "int (length products)" g pos] by (auto simp: length_products)
  obtain p where p: "py_index products idx = Inr p" "p \<in> set products"
    using py_index_products [OF idx(2,3)] by blast
  obtain q where q: "randint g (Suc pos) 1 4 = Inr (q, Suc (Suc pos))" "1 \<le> q" "q < 4"
    using randint_ok [of 1 4 g "Suc pos"] by auto
  let ?it = "(oid, product_id p, q, price p)"
  from Suc.IH [of "Suc (Suc pos)" "tot + price p * of_int q" "items @ [?it]"]
  obtain new where new:
    "gen_items g oid n (Suc (Suc pos)) (tot + price p * of_int q) (items @ [?it]) =
       Inr (tot + price p * of_int q + sum_list (map line_total new), (items @ [?it]) @ new,
            Suc (Suc pos) + 2 * n)"
    "length new = n"
    "\<forall>it \<in> set new. item_order_id it = oid \<and> item_ok it"
    by blast
  have lt: "line_total ?it = price p * of_int q"
    by (simp add: line_total_def unit_price_def quantity_def)
  have "gen_items g oid (Suc n) pos tot items =
          Inr (tot + sum_list (map line_total (?it # new)), items @ (?it # new), pos + 2 * Suc n)"
    using idx(1) p(1) q(1) new(1) lt by (simp add: add.assoc)
  moreover have "length (?it # new) = Suc n" using new(2) by simp
  moreover have "item_order_id ?it = oid \<and> item_ok ?it"
    using q(2,3) p(2)
    by (auto simp: item_order_id_def quantity_def from_catalog_def item_product_id_def
          unit_price_def item_ok_def)
  ultimately show ?case using new(3)
    by (intro exI [of _ "?it # new"]) (simp del: sum_list.Cons)
qed

lemma items_of_append: "items_of (xs @ ys) i = items_of xs i @ items_of ys i"
  by (simp add: items_of_def)

lemma items_of_all: "\<forall>it \<in> set xs. item_order_id it = i \<Longrightarrow> items_of xs i = xs"
  by (simp add: items_of_def)

lemma items_of_none: "\<forall>it \<in> set xs. item_order_id it \<noteq> i \<Longrightarrow> items_of xs i = []"
  by (simp add: items_of_def)

lemma order_ok_cong:
  "items_of xs (order_id o') = items_of ys (order_id o') \<Longrightarrow> order_ok nc xs o' = order_ok nc ys o'"
  by (simp add: order_ok_def)

lemma ids_shift: "map (\<lambda>i. oid + int i) [0..<Suc n] = oid # map (\<lambda>i. oid + 1 + int i) [0..<n]"
proof -
  have "[0..<Suc n] = 0 # map Suc [0..<n]"
    by (simp add: upt_conv_Cons map_Suc_upt del: upt_Suc)
  then show ?thesis by (simp add: comp_def add.assoc del: upt_Suc)
qed

lemma gen_orders_spec:
  assumes nc: "1 \<le> nc"
  shows "\<exists>newo newi pos'.
           gen_orders g nc n oid pos os ois = Inr (os @ newo, ois @ newi, pos')
         \<and> map order_id newo = map (\<lambda>i. oid + int i) [0..<n]
         \<and> (\<forall>o' \<in> set newo. order_ok nc newi o')
         \<and> (\<forall>it \<in> set newi. oid \<le> item_order_id it \<and> item_order_id it < oid + int n \<and> item_ok it)
         \<and> n \<le> length newi \<and> length newi \<le> 5 * n"
proof (induction n arbitrary: oid pos os ois)
  case 0
  show ?case by simp
next
  case (Suc n)
  obtain cid where cid: "randint g pos 1 (nc + 1) = Inr (cid, Suc pos)" "1 \<le> cid" "cid < nc + 1"
    using randint_ok [of 1 "nc + 1" g pos] nc by auto
  obtain k where k: "randint g (Suc pos) 0 730 = Inr (k, Suc (Suc pos))" "0 \<le> k" "k < 730"
    using randint_ok [of 0 730 g "Suc pos"] by auto
  obtain m where m: "randint g (Suc (Suc pos)) 1 6 = Inr (m, Suc (Suc (Suc pos)))" "1 \<le> m" "m < 6"
    using randint_ok [of 1 6 g "Suc (Suc pos)"] by auto
  obtain items1 where items1:
    "gen_items g oid (nat m) (Suc (Suc (Suc pos))) 0 [] =
       Inr (0 + sum_list (map line_total items1), [] @ items1, Suc (Suc (Suc pos)) + 2 * nat m)"
    "length items1 = nat m"
    "\<forall>it \<in> set items1. item_order_id it = oid \<and> item_ok it"
    using gen_items_spec [of g oid "nat m" "Suc (Suc (Suc pos))" 0 "[]"] by blast
  let ?o1 = "(oid, cid, random_date k, round2 (sum_list (map line_total items1)))"
  let ?pos4 = "Suc (Suc (Suc pos)) + 2 * nat m"
  from Suc.IH [of "oid + 1" ?pos4 "os @ [?o1]" "ois @ items1"]
  obtain newo newi pos' where rec:
    "gen_orders g nc n (oid + 1) ?pos4 (os @ [?o1]) (ois @ items1) =
       Inr ((os @ [?o1]) @ newo, (ois @ items1) @ newi, pos')"
    "map order_id newo = map (\<lambda>i. oid + 1 + int i) [0..<n]"
    "\<forall>o' \<in> set newo. order_ok nc newi o'"
    "\<forall>it \<in> set newi. oid + 1 \<le> item_order_id it \<and> item_order_id it < oid + 1 + int n \<and> item_ok it"
    "n \<le> length newi" "length newi \<le> 5 * n"
    by blast
  have run: "gen_orders g nc (Suc n) oid pos os ois =
               Inr (os @ (?o1 # newo), ois @ (items1 @ newi), pos')"
    using cid(1) k(1) m(1) items1(1) rec(1) by simp
  have ids: "map order_id (?o1 # newo) = map (\<lambda>i. oid + int i) [0..<Suc n]"
    using rec(2) by (simp add: ids_shift order_id_def del: upt_Suc)
  have later: "\<forall>it \<in> set newi. item_order_id it \<noteq> oid"
    using rec(4) by auto
  have first: "items_of (items1 @ newi) oid = items1"
    using items1(3) later by (simp add: items_of_append items_of_all items_of_none)
  have nm: "1 \<le> nat m" "nat m \<le> 5"
    using m(2,3) by linarith+
  have win: "in_window (random_date k)"
    using k(2,3) by (auto simp: in_window_def)
  have o1: "order_ok nc (items1 @ newi) ?o1"
    using cid(2,3) nm items1(2) first win
    by (simp add: order_ok_def order_id_def order_customer_id_def total_amount_def order_date_def)
  have others: "order_ok nc (items1 @ newi) o'" if "o' \<in> set newo" for o'
  proof -
    have "order_id o' \<in> set (map order_id newo)" using that by simp
    then have "oid + 1 \<le> order_id o'" unfolding rec(2) by auto
    then have "\<forall>it \<in> set items1. item_order_id it \<noteq> order_id o'"
      using items1(3) by auto
    then have "items_of (items1 @ newi) (order_id o') = items_of newi (order_id o')"
      by (simp add: items_of_append items_of_none)
    then show ?thesis using rec(3) that order_ok_cong by blast
  qed
  have its: "\<forall>it \<in> set (items1 @ newi).
               oid \<le> item_order_id it \<and> item_order_id it < oid + int (Suc n) \<and> item_ok it"
    using items1(3) rec(4) by auto
  have len: "Suc n \<le> length (items1 @ newi)" "length (items1 @ newi) \<le> 5 * Suc n"
    using items1(2) nm rec(5,6) by auto
  show ?case
    using run ids o1 others its len
    by (intro exI [of _ "?o1 # newo"] exI [of _ "items1 @ newi"] exI [of _ pos']) simp
qed

lemma generate_spec:
  assumes nc: "1 \<le> nc"
  shows "\<exists>ds. generate g nc no = Inr ds
         \<and> map customer_id (customers ds) = [1..nc]
         \<and> map order_id (orders ds) = map (\<lambda>i. 1 + int i) [0..<nat no]
         \<and> (\<forall>o' \<in> set (orders ds). order_ok nc (order_items ds) o')
         \<and> (\<forall>it \<in> set (order_items ds).
               1 \<le> item_order_id it \<and> item_order_id it < 1 + int (nat no) \<and> item_ok it)
         \<and> nat no \<le> length (order_items ds) \<and> length (order_items ds) \<le> 5 * nat no"
proof -
  obtain cs where cs:
    "gen_customers g [1..nc] 0 [] = Inr ([] @ cs, 0 + length [1..nc])" "map customer_id cs = [1..nc]"
    using gen_customers_spec [of g "[1..nc]" 0 "[]"] by blast
  obtain newo newi pos' where os:
    "gen_orders g nc (nat no) 1 (0 + length [1..nc]) [] [] = Inr ([] @ newo, [] @ newi, pos')"
    "map order_id newo = map (\<lambda>i. 1 + int i) [0..<nat no]"
    "\<forall>o' \<in> set newo. order_ok nc newi o'"
    "\<forall>it \<in> set newi. 1 \<le> item_order_id it \<and> item_order_id it < 1 + int (nat no) \<and> item_ok it"
    "nat no \<le> length newi" "length newi \<le> 5 * nat no"
    using gen_orders_spec [OF nc, of g "nat no" 1 "0 + length [1..nc]" "[]" "[]"] by blast
  have "generate g nc no = Inr \<lparr>customers = cs, orders = newo, order_items = newi\<rparr>"
    using cs(1) os(1) by (simp add: generate_def)
  then show ?thesis using cs(2) os(2-6) by simp
qed

section \<open>Order totals\<close>



section \<open>Catalog facts\<close>

lemma distinct_product_ids: "distinct (map product_id products)"
  by (simp add: products_def product_id_def)

lemma product_id_inj:
  "p \<in> set products \<Longrightarrow> q \<in> set products \<Longrightarrow> product_id p = product_id q \<Longrightarrow> p = q"
  using distinct_product_ids by (auto simp: distinct_map inj_on_def)

lemma price_ge_one: "p \<in> set products \<Longrightarrow> 1 \<le> price p"
  by (auto simp: products_def price_def)

lemma line_total_ge_one:
  assumes "item_ok it"
  shows "1 \<le> line_total it"
proof -
  from assms obtain p where p: "p \<in> set products" "unit_price it = price p"
    by (auto simp: item_ok_def from_catalog_def)
  have q: "(1::rat) \<le> of_int (quantity it)"
    using assms by (simp add: item_ok_def)
  have "1 * 1 \<le> price p * of_int (quantity it)"
    using price_ge_one [OF p(1)] q by (intro mult_mono) auto
  then show ?thesis by (simp add: line_total_def p(2))
qed

lemma sum_list_ge_one:
  fixes xs :: "rat list"
  assumes "xs \<noteq> []" "\<forall>x \<in> set xs. 1 \<le> x"
  shows "1 \<le> sum_list xs"
proof (cases xs)
  case Nil
  with assms(1) show ?thesis by simp
next
  case (Cons x rest)
  have "0 \<le> sum_list rest"
    using assms(2) Cons by (intro sum_list_nonneg) auto
  moreover have "1 \<le> x" using assms(2) Cons by simp
  ultimately show ?thesis using Cons by simp
qed

lemma round2_pos:
  assumes "1 \<le> x"
  shows "0 < round2 x"
proof -
  define f where "f = \<lfloor>x * 100\<rfloor>"
  define r where "r = x * 100 - of_int f"
  define k where "k = (if r < 1 / 2 then f else if 1 / 2 < r then f + 1 else if even f then f else f + 1)"
  have "of_int 100 \<le> x * 100" using assms by simp
  then have "100 \<le> f" unfolding f_def by (simp only: le_floor_iff)
  then have "0 < k" by (simp add: k_def)
  then have "0 < (of_int k :: rat) / 100" by simp
  moreover have "round2 x = of_int k / 100"
    by (simp add: round2_def Let_def k_def r_def f_def)
  ultimately show ?thesis by simp
qed

lemma order_total_pos:
  assumes "order_ok nc items o'" "\<forall>it \<in> set items. item_ok it"
  shows "0 < total_amount o'"
proof -
  let ?its = "items_of items (order_id o')"
  have ne: "map line_total ?its \<noteq> []"
    using assms(1) by (auto simp: order_ok_def)
  have "\<forall>it \<in> set ?its. item_ok it"
    using assms(2) by (simp add: items_of_def)
  then have "\<forall>x \<in> set (map line_total ?its). 1 \<le> x"
    using line_total_ge_one by auto
  then have "1 \<le> sum_list (map line_total ?its)"
    using sum_list_ge_one [OF ne] by blast
  then have "0 < round2 (sum_list (map line_total ?its))"
    by (rule round2_pos)
  then show ?thesis using assms(1) by (simp add: order_ok_def)
qed

section \<open>Price snapshot\<close>

text \<open>
  C10. Every generated order item carries the catalog price of the product it
  references, and every generated order has a total\_amount greater than zero.
\<close>

theorem unit_price_is_catalog_price:
  assumes "1 \<le> nc"
  shows "\<exists>ds. generate g nc no = Inr ds
           \<and> (\<forall>it \<in> set (order_items ds).
                 (\<exists>p \<in> set products. product_id p = item_product_id it)
                 \<and> (\<forall>p \<in> set products. product_id p = item_product_id it
                        \<longrightarrow> unit_price it = price p))
           \<and> (\<forall>o' \<in> set (orders ds). 0 < total_amount o')"
proof -
  obtain ds where ds: "generate g nc no = Inr ds"
      "\<forall>o' \<in> set (orders ds). order_ok nc (order_items ds) o'"
      "\<forall>it \<in> set (order_items ds).
         1 \<le> item_order_id it \<and> item_order_id it < 1 + int (nat no) \<and> item_ok it"
    using generate_spec [OF assms, of g no] by blast
  have ok: "\<forall>it \<in> set (order_items ds). item_ok it"
    using ds(3) by blast
  have snap: "(\<exists>p \<in> set products. product_id p = item_product_id it)
                 \<and> (\<forall>p \<in> set products. product_id p = item_product_id it
                        \<longrightarrow> unit_price it = price p)"
    if "it \<in> set (order_items ds)" for it
  proof -
    from ok that obtain q where q: "q \<in> set products" "item_product_id it = product_id q"
        "unit_price it = price q"
      by (auto simp: item_ok_def from_catalog_def)
    have "unit_price it = price p" if "p \<in> set products" "product_id p = item_product_id it" for p
      using product_id_inj [OF that(1) q(1)] that(2) q(2,3) by simp
    with q(1,2) show ?thesis by auto
  qed
  have pos: "\<forall>o' \<in> set (orders ds). 0 < total_amount o'"
    using ds(2) ok order_total_pos by blast
  from ds(1) snap pos show ?thesis by blast
qed

theorem unit_price_is_catalog_price_witness:
  "generate sample_draws 1 1 = Inr sample_dataset
   \<and> (1, 7, 2, 8999 / 100) \<in> set (order_items sample_dataset)
   \<and> (7, ''Sneakers'', ''Fashion'', 8999 / 100) \<in> set products
   \<and> unit_price (1, 7, 2, 8999 / 100) = price (7, ''Sneakers'', ''Fashion'', 8999 / 100)
   \<and> (1, 1, ''2021-01-03'', 248991 / 100) \<in> set (orders sample_dataset)
   \<and> 0 < total_amount (1, 1, ''2021-01-03'', 248991 / 100)"
proof -
  have one: "(1::int) \<le> 1" by simp
  obtain ds where ds: "generate sample_draws 1 1 = Inr ds"
      "\<forall>it \<in> set (order_items ds).
         (\<exists>p \<in> set products. product_id p = item_product_id it)
         \<and> (\<forall>p \<in> set products. product_id p = item_product_id it \<longrightarrow> unit_price it = price p)"
      "\<forall>o' \<in> set (orders ds). 0 < total_amount o'"
    using unit_price_is_catalog_price [OF one, of sample_draws 1] by blast
  have eq: "ds = sample_dataset"
    using ds(1) generate_sample by simp
  have it: "(1, 7, 2, 8999 / 100) \<in> set (order_items sample_dataset)"
    by (simp add: sample_dataset_def)
  have p: "(7, ''Sneakers'', ''Fashion'', 8999 / 100) \<in> set products"
    by (simp add: products_def)
  have ref: "product_id (7, ''Sneakers'', ''Fashion'', 8999 / 100) = item_product_id (1, 7, 2, 8999 / 100)"
    by (simp add: product_id_def item_product_id_def)
  have snap: "unit_price (1, 7, 2, 8999 / 100) = price (7, ''Sneakers'', ''Fashion'', 8999 / 100)"
    using ds(2) it p ref unfolding eq by blast
  have o: "(1, 1, ''2021-01-03'', 248991 / 100) \<in> set (orders sample_dataset)"
    by (simp add: sample_dataset_def)
  have pos: "0 < total_amount (1, 1, ''2021-01-03'', 248991 / 100)"
    using ds(3) o unfolding eq by blast
  from generate_sample it p snap o pos show ?thesis by blast
qed

section \<open>The store after the inserts\<close>

lemma insert_rows_distinct:
  "distinct (map key (tbl @ rows)) \<Longrightarrow> insert_rows key rows tbl = Inr (tbl @ rows)"
proof (induction rows arbitrary: tbl)
  case Nil
  show ?case by simp
next
  case (Cons r rows)
  from Cons.prems have fresh: "key r \<notin> set (map key tbl)" by auto
  from Cons.prems have "distinct (map key ((tbl @ [r]) @ rows))" by simp
  from Cons.IH [OF this] fresh show ?case by simp
qed

lemma autoincrement_rows_snd: "map snd (autoincrement_rows items tbl) = map snd tbl @ items"
  by (induction items arbitrary: tbl) simp_all

lemma reset_store_any: "reset_store s = Inr empty_store"
  by (cases s)
    (simp add: reset_store_def tables_def drop_table_if_exists_def create_Customers_def
      create_Products_def create_Orders_def create_OrderItems_def and_then_def empty_store_def)

lemma generate_steps:
  assumes "generate g nc no = Inr ds"
  shows "\<exists>pos pos'. gen_customers g [1..nc] 0 [] = Inr (customers ds, pos)
           \<and> gen_orders g nc (nat no) 1 pos [] [] = Inr (orders ds, order_items ds, pos')"
  using assms by (auto simp: generate_def split: sum.splits)

lemma distinct_order_ids: "distinct (map (\<lambda>i. 1 + int i) [0..<n])"
  by (simp add: distinct_map inj_on_def)

lemma populate_spec:
  assumes nc: "1 \<le> nc"
  shows "\<exists>ds ois. generate g nc no = Inr ds
           \<and> populate g nc no empty_store =
               Inr \<lparr>Customers = Some (customers ds), Products = Some products,
                    Orders = Some (orders ds), OrderItems = Some ois\<rparr>
           \<and> map snd ois = order_items ds"
proof -
  obtain ds where ds: "generate g nc no = Inr ds"
      "map customer_id (customers ds) = [1..nc]"
      "map order_id (orders ds) = map (\<lambda>i. 1 + int i) [0..<nat no]"
    using generate_spec [OF nc, of g no] by blast
  obtain pos pos' where steps:
      "gen_customers g [1..nc] 0 [] = Inr (customers ds, pos)"
      "gen_orders g nc (nat no) 1 pos [] [] = Inr (orders ds, order_items ds, pos')"
    using generate_steps [OF ds(1)] by blast
  have c: "insert_rows customer_id (customers ds) [] = Inr (customers ds)"
    using insert_rows_distinct [of customer_id "[]" "customers ds"] ds(2) by simp
  have p: "insert_rows product_id products [] = Inr products"
    using insert_rows_distinct [of product_id "[]" products] distinct_product_ids by simp
  have o: "insert_rows order_id (orders ds) [] = Inr (orders ds)"
    using insert_rows_distinct [of order_id "[]" "orders ds"] ds(3) distinct_order_ids by simp
  let ?ois = "autoincrement_rows (order_items ds) []"
  have "populate g nc no empty_store =
          Inr \<lparr>Customers = Some (customers ds), Products = Some products,
               Orders = Some (orders ds), OrderItems = Some ?ois\<rparr>"
    using steps c p o
    by (simp add: populate_def and_then_def empty_store_def insert_Customers_def
          insert_Products_def insert_Orders_def insert_OrderItems_def)
  moreover have "map snd ?ois = order_items ds"
    by (simp add: autoincrement_rows_snd)
  ultimately show ?thesis using ds(1) by blast
qed

section \<open>Referential integrity\<close>

lemma order_id_in_range:
  assumes "1 \<le> x" "x < 1 + int n"
  shows "x \<in> set (map (\<lambda>i. 1 + int i) [0..<n])"
proof -
  have "nat (x - 1) < n" using assms by linarith
  moreover have "x = 1 + int (nat (x - 1))" using assms by simp
  ultimately show ?thesis by (auto simp: image_iff intro!: bexI [of _ "nat (x - 1)"])
qed

text \<open>
  C2. After the inserts the tables hold the generated rows, and every Orders row names
  the key of a Customers row, every OrderItems row the key of an Orders row and the key
  of a Products row.
\<close>

theorem stored_references_exist:
  assumes "1 \<le> nc"
  shows "\<exists>s cs os ois.
           populate g nc no empty_store = Inr s
           \<and> Customers s = Some cs \<and> Products s = Some products
           \<and> Orders s = Some os \<and> OrderItems s = Some ois
           \<and> generate g nc no = Inr \<lparr>customers = cs, orders = os, order_items = map snd ois\<rparr>
           \<and> (\<forall>o' \<in> set os. order_customer_id o' \<in> customer_id ` set cs)
           \<and> (\<forall>r \<in> set ois. item_order_id (snd r) \<in> order_id ` set os
                               \<and> item_product_id (snd r) \<in> product_id ` set products)"
proof -
  obtain ds ois where pop: "generate g nc no = Inr ds"
      "populate g nc no empty_store =
         Inr \<lparr>Customers = Some (customers ds), Products = Some products,
              Orders = Some (orders ds), OrderItems = Some ois\<rparr>"
      "map snd ois = order_items ds"
    using populate_spec [OF assms, of g no] by blast
  obtain ds' where spec: "generate g nc no = Inr ds'"
      "map customer_id (customers ds') = [1..nc]"
      "map order_id (orders ds') = map (\<lambda>i. 1 + int i) [0..<nat no]"
      "\<forall>o' \<in> set (orders ds'). order_ok nc (order_items ds') o'"
      "\<forall>it \<in> set (order_items ds').
         1 \<le> item_order_id it \<and> item_order_id it < 1 + int (nat no) \<and> item_ok it"
    using generate_spec [OF assms, of g no] by blast
  have same: "ds' = ds" using pop(1) spec(1) by simp
  have cids: "customer_id ` set (customers ds) = {1..nc}"
    using spec(2) unfolding same by (metis set_map set_upto)
  have oids: "order_id ` set (orders ds) = set (map (\<lambda>i. 1 + int i) [0..<nat no])"
    using spec(3) unfolding same by (metis set_map)
  have a: "\<forall>o' \<in> set (orders ds). order_customer_id o' \<in> customer_id ` set (customers ds)"
    using spec(4) unfolding same cids by (simp add: order_ok_def)
  have b: "item_order_id (snd r) \<in> order_id ` set (orders ds)
             \<and> item_product_id (snd r) \<in> product_id ` set products"
    if "r \<in> set ois" for r
  proof -
    have "snd r \<in> set (order_items ds)"
      using that pop(3) by (metis image_eqI set_map)
    then have it: "1 \<le> item_order_id (snd r)" "item_order_id (snd r) < 1 + int (nat no)"
        "item_ok (snd r)"
      using spec(5) unfolding same by blast+
    have "item_order_id (snd r) \<in> order_id ` set (orders ds)"
      unfolding oids using order_id_in_range [OF it(1,2)] .
    moreover have "item_product_id (snd r) \<in> product_id ` set products"
      using it(3) by (auto simp: item_ok_def from_catalog_def)
    ultimately show ?thesis by simp
  qed
  have ds_eq: "ds = \<lparr>customers = customers ds, orders = orders ds, order_items = map snd ois\<rparr>"
    using pop(3) by simp
  show ?thesis
    using pop(1,2) a b ds_eq
    by (intro exI [of _ "\<lparr>Customers = Some (customers ds), Products = Some products,
              Orders = Some (orders ds), OrderItems = Some ois\<rparr>"]
          exI [of _ "customers ds"] exI [of _ "orders ds"] exI [of _ ois]) auto
qed

lemma populate_sample: "populate sample_draws 1 1 empty_store = Inr sample_store"
proof -
  obtain pos pos' where steps:
      "gen_customers sample_draws [1..1] 0 [] = Inr (customers sample_dataset, pos)"
      "gen_orders sample_draws 1 (nat 1) 1 pos [] [] =
         Inr (orders sample_dataset, order_items sample_dataset, pos')"
    using generate_steps [OF generate_sample] by blast
  have c: "insert_rows customer_id (customers sample_dataset) [] = Inr (customers sample_dataset)"
    by (simp add: sample_dataset_def customer_id_def)
  have p: "insert_rows product_id products [] = Inr products"
    using insert_rows_distinct [of product_id "[]" products] distinct_product_ids by simp
  have o: "insert_rows order_id (orders sample_dataset) [] = Inr (orders sample_dataset)"
    by (simp add: sample_dataset_def order_id_def)
  have i: "autoincrement_rows (order_items sample_dataset) [] =
             [(1, 1, 5, 3, 4999 / 100), (2, 1, 7, 2, 8999 / 100),
              (3, 1, 9, 1, 5999 / 100), (4, 1, 1, 3, 69999 / 100)]"
    by (simp add: sample_dataset_def next_rowid_def)
  show ?thesis
    using steps c p o i
    by (simp add: populate_def and_then_def empty_store_def insert_Customers_def
          insert_Products_def insert_Orders_def insert_OrderItems_def sample_store_def)
qed

theorem stored_references_exist_witness:
  "populate sample_draws 1 1 empty_store = Inr sample_store
   \<and> Orders sample_store = Some [(1, 1, ''2021-01-03'', 248991 / 100)]
   \<and> order_customer_id (1, 1, ''2021-01-03'', 248991 / 100)
       \<in> customer_id ` set [(1, ''Customer 1'', ''customer1@example.com'', ''2021-01-01'')]
   \<and> (2, 1, 7, 2, 8999 / 100) \<in> set (the (OrderItems sample_store))
   \<and> item_order_id (snd (2::int, 1, 7, 2, 8999 / 100))
       \<in> order_id ` set [(1, 1, ''2021-01-03'', 248991 / 100)]
   \<and> item_product_id (snd (2::int, 1, 7, 2, 8999 / 100)) \<in> product_id ` set products"
proof -
  have one: "(1::int) \<le> 1" by simp
  obtain s cs os ois where s: "populate sample_draws 1 1 empty_store = Inr s"
      "Customers s = Some cs" "Orders s = Some os" "OrderItems s = Some ois"
      "\<forall>o' \<in> set os. order_customer_id o' \<in> customer_id ` set cs"
      "\<forall>r \<in> set ois. item_order_id (snd r) \<in> order_id ` set os
                        \<and> item_product_id (snd r) \<in> product_id ` set products"
    using stored_references_exist [OF one, of sample_draws 1] by blast
  have eq: "s = sample_store" using s(1) populate_sample by simp
  have cs: "cs = [(1, ''Customer 1'', ''customer1@example.com'', ''2021-01-01'')]"
    using s(2) unfolding eq by (simp add: sample_store_def sample_dataset_def)
  have os: "os = [(1, 1, ''2021-01-03'', 248991 / 100)]"
    using s(3) unfolding eq by (simp add: sample_store_def sample_dataset_def)
  have ois: "ois = the (OrderItems sample_store)"
    using s(4) unfolding eq by simp
  have tbl: "Orders sample_store = Some [(1, 1, ''2021-01-03'', 248991 / 100)]"
    by (simp add: sample_store_def sample_dataset_def)
  have mem: "(2, 1, 7, 2, 8999 / 100) \<in> set (the (OrderItems sample_store))"
    by (simp add: sample_store_def)
  have a: "order_customer_id (1, 1, ''2021-01-03'', 248991 / 100)
       \<in> customer_id ` set [(1, ''Customer 1'', ''customer1@example.com'', ''2021-01-01'')]"
    using s(5) unfolding cs os by simp
  have b: "item_order_id (snd (2::int, 1, 7, 2, 8999 / 100))
       \<in> order_id ` set [(1, 1, ''2021-01-03'', 248991 / 100)]
       \<and> item_product_id (snd (2::int, 1, 7, 2, 8999 / 100)) \<in> product_id ` set products"
    using s(6) mem unfolding ois os by blast
  from populate_sample tbl a mem b show ?thesis by blast
qed

section \<open>A full run\<close>

lemma path_join_not_dir: "path_join OUTPUT_DIR n \<noteq> OUTPUT_DIR"
  by (simp add: path_join_def)

lemma setup_output_dir_spec:
  assumes "output_usable f"
  shows "\<exists>f1. setup_output_dir f = Inr f1 \<and> dirs f1 = insert OUTPUT_DIR (dirs f)
           \<and> files f1 = files f \<and> denied f1 = denied f"
proof (cases "OUTPUT_DIR \<in> dirs f")
  case True
  then have "setup_output_dir f = Inr f"
    by (simp add: setup_output_dir_def path_exists_def)
  with True show ?thesis by (auto simp: insert_absorb)
next
  case False
  with assms have "OUTPUT_DIR \<notin> files f" "OUTPUT_DIR \<notin> denied f"
    by (auto simp: output_usable_def)
  with False have "setup_output_dir f = Inr (f\<lparr>dirs := insert OUTPUT_DIR (dirs f)\<rparr>)"
    by (simp add: setup_output_dir_def path_exists_def makedirs_def)
  then show ?thesis by simp
qed

lemma savefig_spec:
  assumes "OUTPUT_DIR \<in> dirs f" "path_join OUTPUT_DIR n \<notin> dirs f" "path_join OUTPUT_DIR n \<notin> denied f"
  shows "savefig OUTPUT_DIR n f = Inr (f\<lparr>files := insert (path_join OUTPUT_DIR n) (files f)\<rparr>)"
  using assms by (simp add: savefig_def)

lemma save_charts_spec:
  assumes "OUTPUT_DIR \<in> dirs f" "\<forall>p \<in> chart_files. p \<notin> dirs f \<and> p \<notin> denied f"
  shows "\<exists>f2. save_charts f = Inr f2 \<and> dirs f2 = dirs f \<and> files f2 = files f \<union> chart_files"
proof -
  let ?a = "''monthly_sales_trend.png''" and ?b = "''best_selling_products.png''"
  let ?c = "''top_customers_spending.png''" and ?d = "''customer_segmentation.png''"
  have free: "path_join OUTPUT_DIR ?a \<notin> dirs f" "path_join OUTPUT_DIR ?a \<notin> denied f"
      "path_join OUTPUT_DIR ?b \<notin> dirs f" "path_join OUTPUT_DIR ?b \<notin> denied f"
      "path_join OUTPUT_DIR ?c \<notin> dirs f" "path_join OUTPUT_DIR ?c \<notin> denied f"
      "path_join OUTPUT_DIR ?d \<notin> dirs f" "path_join OUTPUT_DIR ?d \<notin> denied f"
    using assms(2) by (simp_all add: chart_files_def)
  let ?f1 = "f\<lparr>files := insert (path_join OUTPUT_DIR ?a) (files f)\<rparr>"
  let ?f2 = "?f1\<lparr>files := insert (path_join OUTPUT_DIR ?b) (files ?f1)\<rparr>"
  let ?f3 = "?f2\<lparr>files := insert (path_join OUTPUT_DIR ?c) (files ?f2)\<rparr>"
  let ?f4 = "?f3\<lparr>files := insert (path_join OUTPUT_DIR ?d) (files ?f3)\<rparr>"
  have s1: "savefig OUTPUT_DIR ?a f = Inr ?f1"
    using assms(1) free by (intro savefig_spec) simp_all
  have s2: "savefig OUTPUT_DIR ?b ?f1 = Inr ?f2"
    using assms(1) free by (intro savefig_spec) simp_all
  have s3: "savefig OUTPUT_DIR ?c ?f2 = Inr ?f3"
    using assms(1) free by (intro savefig_spec) simp_all
  have s4: "savefig OUTPUT_DIR ?d ?f3 = Inr ?f4"
    using assms(1) free by (intro savefig_spec) simp_all
  have "save_charts f = Inr ?f4"
    by (simp only: save_charts_def and_then_def s1 s2 s3 s4 sum.case)
  moreover have "dirs ?f4 = dirs f" by simp
  moreover have "files ?f4 = files f \<union> chart_files"
    by (auto simp: chart_files_def)
  ultimately show ?thesis by blast
qed

lemma card_chart_files: "card chart_files = 4"
  by (simp add: chart_files_def path_join_def OUTPUT_DIR_def)

lemma run_analysis_spec:
  assumes usable: "output_usable (fs w)" and nc: "1 \<le> nc"
  shows "\<exists>w' ds ois. run_analysis g nc no w = Inr w'
           \<and> populate g nc no empty_store = Inr (db w')
           \<and> generate g nc no = Inr ds
           \<and> db w' = \<lparr>Customers = Some (customers ds), Products = Some products,
                       Orders = Some (orders ds), OrderItems = Some ois\<rparr>
           \<and> map snd ois = order_items ds
           \<and> OUTPUT_DIR \<in> dirs (fs w')
           \<and> files (fs w') = files (fs w) \<union> chart_files"
proof -
  obtain f1 where f1: "setup_output_dir (fs w) = Inr f1" "dirs f1 = insert OUTPUT_DIR (dirs (fs w))"
      "files f1 = files (fs w)" "denied f1 = denied (fs w)"
    using setup_output_dir_spec [OF usable] by blast
  obtain ds ois where pop: "generate g nc no = Inr ds"
      "populate g nc no empty_store =
         Inr \<lparr>Customers = Some (customers ds), Products = Some products,
              Orders = Some (orders ds), OrderItems = Some ois\<rparr>"
      "map snd ois = order_items ds"
    using populate_spec [OF nc, of g no] by blast
  have "\<forall>p \<in> chart_files. p \<notin> dirs f1 \<and> p \<notin> denied f1"
    using usable f1(2,4) path_join_not_dir
    by (auto simp: output_usable_def chart_files_def)
  moreover have "OUTPUT_DIR \<in> dirs f1" using f1(2) by simp
  ultimately obtain f2 where f2: "save_charts f1 = Inr f2" "dirs f2 = dirs f1"
      "files f2 = files f1 \<union> chart_files"
    using save_charts_spec [of f1] by blast
  let ?s = "\<lparr>Customers = Some (customers ds), Products = Some products,
              Orders = Some (orders ds), OrderItems = Some ois\<rparr>"
  have "run_analysis g nc no w = Inr \<lparr>fs = f2, db = ?s\<rparr>"
    using f1(1) pop(2) f2(1) by (simp add: run_analysis_def and_then_def reset_store_any)
  then show ?thesis
    using pop f1(2,3) f2(2,3)
    by (intro exI [of _ "\<lparr>fs = f2, db = ?s\<rparr>"] exI [of _ ds] exI [of _ ois]) simp
qed

text \<open>
  C8. Whatever the store held before, a complete run of the script leaves the four
  tables rebuilt from nothing: exactly 200 customer rows, the 10 product rows, 1000
  order rows and between 1000 and 5000 order-item rows; and the run writes exactly the
  four image files into the output directory.
\<close>

theorem full_run_rebuilds_store:
  assumes "output_usable (fs w)"
  shows "\<exists>w' cs ps os ois.
           sql_data_analysis g w = Inr w'
           \<and> populate g num_customers num_orders empty_store = Inr (db w')
           \<and> Customers (db w') = Some cs \<and> length cs = 200
           \<and> Products (db w') = Some ps \<and> length ps = 10
           \<and> Orders (db w') = Some os \<and> length os = 1000
           \<and> OrderItems (db w') = Some ois \<and> 1000 \<le> length ois \<and> length ois \<le> 5000
           \<and> OUTPUT_DIR \<in> dirs (fs w')
           \<and> files (fs w') = files (fs w) \<union> chart_files
           \<and> card chart_files = 4"
proof -
  have nc: "1 \<le> num_customers" by (simp add: num_customers_def)
  obtain w' ds ois where run: "run_analysis g num_customers num_orders w = Inr w'"
      "populate g num_customers num_orders empty_store = Inr (db w')"
      "generate g num_customers num_orders = Inr ds"
      "db w' = \<lparr>Customers = Some (customers ds), Products = Some products,
                 Orders = Some (orders ds), OrderItems = Some ois\<rparr>"
      "map snd ois = order_items ds"
      "OUTPUT_DIR \<in> dirs (fs w')"
      "files (fs w') = files (fs w) \<union> chart_files"
    using run_analysis_spec [OF assms nc, of g num_orders] by blast
  obtain ds' where spec: "generate g num_customers num_orders = Inr ds'"
      "map customer_id (customers ds') = [1..num_customers]"
      "map order_id (orders ds') = map (\<lambda>i. 1 + int i) [0..<nat num_orders]"
      "nat num_orders \<le> length (order_items ds')"
      "length (order_items ds') \<le> 5 * nat num_orders"
    using generate_spec [OF nc, of g num_orders] by blast
  have same: "ds' = ds" using run(3) spec(1) by simp
  have "length (map customer_id (customers ds)) = length [1..num_customers]"
    using spec(2) unfolding same by simp
  then have lc: "length (customers ds) = 200"
    by (simp add: num_customers_def)
  have "length (map order_id (orders ds)) = length (map (\<lambda>i. 1 + int i) [0..<nat num_orders])"
    using spec(3) unfolding same by simp
  then have lo: "length (orders ds) = 1000"
    by (simp add: num_orders_def)
  have "length (map snd ois) = length (order_items ds)"
    using run(5) by simp
  then have li: "1000 \<le> length ois" "length ois \<le> 5000"
    using spec(4,5) unfolding same by (simp_all add: num_orders_def)
  show ?thesis
    using run(1,2,4,6,7) lc lo li length_products card_chart_files
    by (intro exI [of _ w'] exI [of _ "customers ds"] exI [of _ products]
          exI [of _ "orders ds"] exI [of _ ois])
       (simp add: sql_data_analysis_def)
qed

theorem full_run_rebuilds_store_witness:
  "output_usable (fs sample_world)
   \<and> Customers (db sample_world) = Some [(7, ''Customer 7'', ''customer7@example.com'', ''2021-05-05'')]
   \<and> (\<exists>w' cs ps os ois.
         sql_data_analysis sample_draws sample_world = Inr w'
         \<and> Customers (db w') = Some cs \<and> length cs = 200
         \<and> Products (db w') = Some ps \<and> length ps = 10
         \<and> Orders (db w') = Some os \<and> length os = 1000
         \<and> OrderItems (db w') = Some ois \<and> 1000 \<le> length ois \<and> length ois \<le> 5000
         \<and> OUTPUT_DIR \<in> dirs (fs w')
         \<and> files (fs w') = {''notes.txt''} \<union> chart_files)"
proof -
  have usable: "output_usable (fs sample_world)"
    by (simp add: output_usable_def sample_world_def bare_filesystem_def chart_files_def
          OUTPUT_DIR_def path_join_def)
  have old: "Customers (db sample_world) = Some [(7, ''Customer 7'', ''customer7@example.com'', ''2021-05-05'')]"
    by (simp add: sample_world_def stale_store_def)
  have fl: "files (fs sample_world) = {''notes.txt''}"
    by (simp add: sample_world_def)
  obtain w' cs ps os ois where run:
      "sql_data_analysis sample_draws sample_world = Inr w'"
      "Customers (db w') = Some cs" "length cs = 200"
      "Products (db w') = Some ps" "length ps = 10"
      "Orders (db w') = Some os" "length os = 1000"
      "OrderItems (db w') = Some ois" "1000 \<le> length ois" "length ois \<le> 5000"
      "OUTPUT_DIR \<in> dirs (fs w')"
      "files (fs w') = files (fs sample_world) \<union> chart_files"
    using full_run_rebuilds_store [OF usable, of sample_draws] by blast
  have "files (fs w') = {''notes.txt''} \<union> chart_files"
    using run(12) fl by simp
  with run(1-11) have "\<exists>w' cs ps os ois.
         sql_data_analysis sample_draws sample_world = Inr w'
         \<and> Customers (db w') = Some cs \<and> length cs = 200
         \<and> Products (db w') = Some ps \<and> length ps = 10
         \<and> Orders (db w') = Some os \<and> length os = 1000
         \<and> OrderItems (db w') = Some ois \<and> 1000 \<le> length ois \<and> length ois \<le> 5000
         \<and> OUTPUT_DIR \<in> dirs (fs w')
         \<and> files (fs w') = {''notes.txt''} \<union> chart_files"
    by (intro exI [of _ w'] exI [of _ cs] exI [of _ ps] exI [of _ os] exI [of _ ois] conjI)
  with usable old show ?thesis by (intro conjI)
qed

section \<open>The sample charts\<close>

text \<open>
  C9, at the input where the code departs from it: in a working directory with no
  \<^verbatim>\<open>images\<close> directory, \<^verbatim>\<open>generate_visualizations.py\<close> does not create the directory;
  its first \<^verbatim>\<open>savefig\<close> raises and no file is written.
\<close>

theorem generate_visualizations_needs_images_dir:
  "generate_visualizations bare_filesystem = Inl FileNotFoundError"
  by (simp add: generate_visualizations_def create_monthly_sales_trend_def savefig_def
        and_then_def bare_filesystem_def)

end
